theory Spec2Isabelle
  imports
    Main
    "HOL-Library.Word"
    "HOL-Library.Char_ord"
    "HOL-Library.List_Lexorder"
    "HOL-Library.Multiset"
begin

section \<open>Stud.IP backend for rclone: the data model\<close>

text \<open>
  The development follows \<^verbatim>\<open>backend/studip/studip.go\<close>. Go's \<^verbatim>\<open>int64\<close> is a 64-bit
  word, a \<^verbatim>\<open>time.Time\<close> is an instant (an integer), a \<^verbatim>\<open>string\<close> is a list of bytes.
\<close>

type_synonym int64 = "64 word"
type_synonym Time = int

text \<open>
  The errors the backend returns: the sentinel errors of rclone's \<^verbatim>\<open>fs\<close> package, the
  value of \<^verbatim>\<open>ctx.Err()\<close>, the errors the backend creates itself, and the errors handed
  back by the REST client (transport, HTTP status, JSON decoding) or by a library call,
  tagged with the request path or the input they belong to.
\<close>

datatype error =
    ErrorDirNotFound
  | ErrorPermissionDenied
  | ErrorNotImplemented
  | ContextError string
  | CourseIDRequired
  | InvalidBaseURL string
  | CourseIDMismatch string string
  | NotAFolder
  | NoRootFolder
  | HTTPStatus nat
  | CallError string

text \<open>
  A call returns, panics or ends the process. The only panic of this code is the
  dereference of a nil \<^verbatim>\<open>*Node\<close>; the process ends in \<^verbatim>\<open>obscure.MustReveal\<close>, which
  calls \<^verbatim>\<open>log.Fatalf\<close> on a password it cannot reveal.
\<close>

datatype 'a outcome = Panics | Exits | Returns 'a

text \<open>The value of \<^verbatim>\<open>ctx.Err()\<close>, taken as fixed for the duration of one call.\<close>

type_synonym Context = "error option"

text \<open>
  \<^verbatim>\<open>type Node struct { Children []*Node; Name, Id string; IsDir bool; ChDate time.Time;
  Size int64; ContentType string }\<close>. The tree is owned (no node is shared), so a node
  holds its children by value; a \<^verbatim>\<open>*Node\<close> that may be nil is a \<open>Node option\<close>.
\<close>

datatype Node = Node
  (Children: "Node list")
  (Name: string)
  (Id: string)
  (IsDir: bool)
  (ChDate: Time)
  (Size: int64)
  (ContentType: string)

section \<open>The path resolver\<close>

text \<open>
  \<^verbatim>\<open>GetNodeAtPath(node, pathSplit)\<close>: the three early returns hand back \<open>node\<close> (nil
  included) without touching it; the loop over \<^verbatim>\<open>node.Children\<close> dereferences \<open>node\<close>
  and returns from the first child whose name equals the first segment.
\<close>

fun GetNodeAtPath :: "Node option \<Rightarrow> string list \<Rightarrow> Node option outcome" where
  "GetNodeAtPath node [] = Returns node"
| "GetNodeAtPath node (seg # rest) =
     (if seg = ''.'' then Returns node
      else if seg = '''' then Returns node
      else (case node of
              None \<Rightarrow> Panics
            | Some n \<Rightarrow>
                (case find (\<lambda>children. Name children = seg) (Children n) of
                   Some children \<Rightarrow> GetNodeAtPath (Some children) rest
                 | None \<Rightarrow> Returns None)))"

section \<open>Library functions the backend calls\<close>

text \<open>
  \<^verbatim>\<open>strings.Split(s, sep)\<close> and \<^verbatim>\<open>strings.Join(elems, sep)\<close> of Go's standard
  library, for the one-byte separator \<open>/\<close> (\<^verbatim>\<open>os.PathSeparator\<close> on the supported
  systems, Linux and macOS).
\<close>

fun strings_Split :: "string \<Rightarrow> char \<Rightarrow> string list" where
  "strings_Split [] sep = [[]]"
| "strings_Split (c # cs) sep =
     (if c = sep then [] # strings_Split cs sep
      else (case strings_Split cs sep of
              [] \<Rightarrow> [[c]]
            | w # ws \<Rightarrow> (c # w) # ws))"

fun strings_Join :: "string list \<Rightarrow> string \<Rightarrow> string" where
  "strings_Join [] sep = []"
| "strings_Join [e] sep = e"
| "strings_Join (e # es) sep = e @ sep @ strings_Join es sep"

text \<open>
  \<^verbatim>\<open>path.Clean\<close> (and \<^verbatim>\<open>filepath.Clean\<close> on Unix), element by element: empty and \<open>.\<close>
  elements are dropped, \<open>..\<close> removes the element before it when there is one to remove,
  is dropped at the root and is kept at the front of a path that is not rooted. \<open>out\<close> is
  the output so far, last element first.
\<close>

fun clean_elems :: "bool \<Rightarrow> string list \<Rightarrow> string list \<Rightarrow> string list" where
  "clean_elems rooted out [] = rev out"
| "clean_elems rooted out (e # es) =
     (if e = '''' \<or> e = ''.'' then clean_elems rooted out es
      else if e = ''..'' then
        (case out of
           [] \<Rightarrow> if rooted then clean_elems rooted [] es else clean_elems rooted [''..''] es
         | t # below \<Rightarrow>
             if t = ''..'' then clean_elems rooted (''..'' # out) es
             else clean_elems rooted below es)
      else clean_elems rooted (e # out) es)"

definition path_Clean :: "string \<Rightarrow> string" where
  "path_Clean p =
     (if p = '''' then ''.''
      else let rooted = (hd p = CHR ''/'');
               out = strings_Join (clean_elems rooted [] (strings_Split p CHR ''/'')) ''/''
           in if rooted then CHR ''/'' # out
              else if out = '''' then ''.'' else out)"

text \<open>
  \<^verbatim>\<open>filepath.Dir\<close>: everything up to and including the last separator, cleaned.
  \<^verbatim>\<open>filepath.Join\<close> of two elements: leading empty elements are ignored, the rest is
  joined with \<open>/\<close> and cleaned; the result is empty when both are.
\<close>

definition filepath_Dir :: "string \<Rightarrow> string" where
  "filepath_Dir p = path_Clean (rev (dropWhile (\<lambda>c. c \<noteq> CHR ''/'') (rev p)))"

definition filepath_Join :: "string \<Rightarrow> string \<Rightarrow> string" where
  "filepath_Join a b =
     (if a \<noteq> '''' then path_Clean (strings_Join [a, b] ''/'')
      else if b \<noteq> '''' then path_Clean b
      else '''')"

text \<open>\<^verbatim>\<open>splitPath\<close> of the backend.\<close>

definition splitPath :: "string \<Rightarrow> string list" where
  "splitPath p = (let p = path_Clean p in if p = ''/'' then [] else strings_Split p CHR ''/'')"

text \<open>
  \<^verbatim>\<open>slices.IndexFunc\<close>: the index of the first element satisfying \<open>f\<close>, or \<open>-1\<close>.
\<close>

fun slices_IndexFunc :: "'a list \<Rightarrow> ('a \<Rightarrow> bool) \<Rightarrow> int" where
  "slices_IndexFunc [] f = - 1"
| "slices_IndexFunc (x # xs) f =
     (if f x then 0
      else (let i = slices_IndexFunc xs f in if i = - 1 then - 1 else i + 1))"

section \<open>Directory entries and their order\<close>

text \<open>
  The backend's \<^verbatim>\<open>Object\<close> and \<^verbatim>\<open>Directory\<close> structs, the two kinds of \<^verbatim>\<open>fs.DirEntry\<close>
  that \<^verbatim>\<open>List\<close> produces, without their back pointer to the \<^verbatim>\<open>Fs\<close>.
\<close>

datatype DirEntry =
    Object (remote: string) (id': string) (size': int64) (isDir: bool)
      (contentType: string) (modTime: Time)
  | Directory (id': string) (name': string) (items: int64) (modTime: Time) (remote: string)

text \<open>
  \<^verbatim>\<open>entries.Less(i, j)\<close> is \<^verbatim>\<open>fs.DirEntries.Less\<close> of the rclone library
  (\<^verbatim>\<open>fs/direntries.go\<close>): \<^verbatim>\<open>CompareDirEntries(ds[i], ds[j]) < 0\<close>, which compares the
  two \<^verbatim>\<open>Remote()\<close> strings with Go's string comparison (byte by byte, so every
  upper-case ASCII letter is below every lower-case one) and, when they are equal, the
  strings \<^verbatim>\<open>DirEntryType\<close> gives them. The order on \<open>string\<close> used here is that
  byte-wise lexicographic order.
\<close>

fun DirEntryType :: "DirEntry \<Rightarrow> string" where
  "DirEntryType (Object _ _ _ _ _ _) = ''object''"
| "DirEntryType (Directory _ _ _ _ _) = ''directory''"

definition CompareDirEntries :: "DirEntry \<Rightarrow> DirEntry \<Rightarrow> int" where
  "CompareDirEntries a b =
     (let aName = remote a; bName = remote b in
      if aName > bName then 1
      else if aName < bName then - 1
      else (let typeA = DirEntryType a; typeB = DirEntryType b in
            if typeA > typeB then 1
            else if typeA < typeB then - 1
            else 0))"

definition Less :: "DirEntry \<Rightarrow> DirEntry \<Rightarrow> bool" where
  "Less a b = (CompareDirEntries a b < 0)"

text \<open>
  \<^verbatim>\<open>sort.Slice(entries, less)\<close>. On a slice of at most 12 elements Go's implementation
  is the insertion sort below: each element in turn is swapped leftwards while it is
  less than its left neighbour (\<open>sift\<close>, on the sorted prefix held last element
  first). On a longer slice Go runs a pattern-defeating quicksort, whose result is a
  permutation sorted under the same comparison that may arrange elements comparing equal
  differently; \<^verbatim>\<open>sort.Slice\<close> promises no stability.
\<close>

fun sift :: "('a \<Rightarrow> 'a \<Rightarrow> bool) \<Rightarrow> 'a list \<Rightarrow> 'a \<Rightarrow> 'a list" where
  "sift lt [] x = [x]"
| "sift lt (y # ys) x = (if lt x y then y # sift lt ys x else x # y # ys)"

definition sort_Slice :: "('a \<Rightarrow> 'a \<Rightarrow> bool) \<Rightarrow> 'a list \<Rightarrow> 'a list" where
  "sort_Slice lt xs = rev (foldl (sift lt) [] xs)"

section \<open>The file system object and its listing\<close>

record Options =
  BaseURL :: string
  Username :: string
  Password :: string
  CourseID :: string

text \<open>
  \<^verbatim>\<open>type Fs struct\<close>, without the REST client: what the client answers is the remote
  environment, passed to the operations that use it.
\<close>

record Fs =
  name :: string
  opt :: Options
  root :: string
  rootNode :: "Node option"

text \<open>The entry \<^verbatim>\<open>List\<close> builds for one child of the listed node.\<close>

definition entry_of :: "string \<Rightarrow> Node \<Rightarrow> DirEntry" where
  "entry_of dir entry =
     (if IsDir entry
      then Directory (Id entry) (Name entry) (of_nat (length (Children entry)))
             (ChDate entry) (filepath_Join dir (Name entry))
      else Object (filepath_Join dir (Name entry)) (Id entry) (Size entry) (IsDir entry)
             (ContentType entry) (ChDate entry))"

text \<open>
  \<^verbatim>\<open>List\<close>. The guard \<^verbatim>\<open>!node.IsDir || node == nil\<close> reads \<^verbatim>\<open>node.IsDir\<close> first, so a
  nil \<open>node\<close> is dereferenced before it is compared with nil.
\<close>

definition Fs_List :: "Fs \<Rightarrow> Context \<Rightarrow> string \<Rightarrow> (error + DirEntry list) outcome" where
  "Fs_List f ctx dir =
     (case ctx of
        Some e \<Rightarrow> Returns (Inl e)
      | None \<Rightarrow>
          (case GetNodeAtPath (rootNode f) (strings_Split dir CHR ''/'') of
             Panics \<Rightarrow> Panics
           | Exits \<Rightarrow> Exits
           | Returns None \<Rightarrow> Panics
           | Returns (Some node) \<Rightarrow>
               if \<not> IsDir node then Returns (Inl ErrorDirNotFound)
               else Returns (Inr (sort_Slice Less (map (entry_of dir) (Children node))))))"

text \<open>
  Follows the spec's words, not the code: the comparison the specification names for
  listings, case-insensitive and ordinal (ASCII letters folded to lower case, then byte
  by byte). It is used only to state what the specification asks of \<^verbatim>\<open>List\<close>.
\<close>

definition spec_fold_case :: "char \<Rightarrow> char" where
  "spec_fold_case c =
     (case map_of (zip ''ABCDEFGHIJKLMNOPQRSTUVWXYZ'' ''abcdefghijklmnopqrstuvwxyz'') c of
        Some l \<Rightarrow> l
      | None \<Rightarrow> c)"

definition spec_caseless_le :: "string \<Rightarrow> string \<Rightarrow> bool" where
  "spec_caseless_le a b = (map spec_fold_case a \<le> map spec_fold_case b)"

section \<open>The remote store\<close>

text \<open>
  The fields of the decoded JSON records that the backend reads: an element of
  \<^verbatim>\<open>StudIPFolders.Data\<close> and an element of \<^verbatim>\<open>StudIPFiles.Data\<close>.
\<close>

record StudIPFoldersData =
  folder_ID :: string
  folder_FolderType :: string
  folder_Name :: string
  folder_Chdate :: Time

record StudIPFilesData =
  file_ID :: string
  file_Name :: string
  file_Chdate :: Time
  file_Filesize :: int64
  file_MimeType :: string
  file_IsReadable :: bool
  file_IsDownloadable :: bool

text \<open>
  What lies outside the backend, as functions of the request path: the result of a
  \<^verbatim>\<open>GET\<close> through the REST client, decoded into the struct the caller asks for, or the
  error of the call (transport, HTTP status or decoding). \<open>get_courses\<close> gives the
  \<^verbatim>\<open>Data.ID\<close> of a decoded \<^verbatim>\<open>StudIPCourses\<close>, \<open>get_content\<close> the status code and body of
  a file download. \<open>url_Parse\<close> is the error of \<^verbatim>\<open>url.Parse\<close>, if any, and
  \<open>obscure_Reveal\<close> the result of \<^verbatim>\<open>obscure.Reveal\<close>. The answers do not change while the
  backend runs.
\<close>

record Remote =
  url_Parse :: "string \<Rightarrow> error option"
  obscure_Reveal :: "string \<Rightarrow> error + string"
  get_courses :: "string \<Rightarrow> error + string"
  get_folders :: "string \<Rightarrow> error + StudIPFoldersData list"
  get_files :: "string \<Rightarrow> error + StudIPFilesData list"
  get_content :: "string \<Rightarrow> error + nat \<times> string"

definition TestConnection :: "Remote \<Rightarrow> Fs \<Rightarrow> Context \<Rightarrow> error option" where
  "TestConnection env f ctx =
     (case ctx of
        Some e \<Rightarrow> Some e
      | None \<Rightarrow>
          (let URL = ''courses/'' @ CourseID (opt f) in
           case get_courses env URL of
             Inl err \<Rightarrow> Some err
           | Inr responseID \<Rightarrow>
               if responseID \<noteq> CourseID (opt f)
               then Some (CourseIDMismatch responseID (CourseID (opt f)))
               else None))"

definition RetrieveFoldersOfFolder ::
  "Remote \<Rightarrow> Context \<Rightarrow> string \<Rightarrow> error + StudIPFoldersData list" where
  "RetrieveFoldersOfFolder env ctx folderID =
     (case ctx of
        Some e \<Rightarrow> Inl e
      | None \<Rightarrow> get_folders env (''folders/'' @ folderID @ ''/folders''))"

definition RetrieveFilesOfFolder ::
  "Remote \<Rightarrow> Context \<Rightarrow> string \<Rightarrow> error + StudIPFilesData list" where
  "RetrieveFilesOfFolder env ctx folderID =
     (case ctx of
        Some e \<Rightarrow> Inl e
      | None \<Rightarrow> get_files env (''folders/'' @ folderID @ ''/file-refs''))"

definition RetrieveRootFolderID :: "Remote \<Rightarrow> Fs \<Rightarrow> Context \<Rightarrow> error + string" where
  "RetrieveRootFolderID env f ctx =
     (case ctx of
        Some e \<Rightarrow> Inl e
      | None \<Rightarrow>
          (case get_folders env (''courses/'' @ CourseID (opt f) @ ''/folders'') of
             Inl err \<Rightarrow> Inl err
           | Inr responseData \<Rightarrow>
               (let index = slices_IndexFunc responseData
                              (\<lambda>e. folder_FolderType e = ''RootFolder'') in
                if index = - 1 then Inl NoRootFolder
                else Inr (folder_ID (responseData ! nat index)))))"

section \<open>The tree builder\<close>

text \<open>
  The child node made for a folder record, and the leaf made for a file record
  (\<^verbatim>\<open>new(Node)\<close> and the assignments that follow it).
\<close>

definition folder_node :: "StudIPFoldersData \<Rightarrow> Node" where
  "folder_node folder =
     Node [] (folder_Name folder) (folder_ID folder) True (folder_Chdate folder) (- 1) []"

definition file_node :: "StudIPFilesData \<Rightarrow> Node" where
  "file_node file =
     Node [] (file_Name file) (file_ID file) False (file_Chdate file) (file_Filesize file)
       (file_MimeType file)"

text \<open>
  The barrier. Every child task sends its result on the unbuffered \<open>errChan\<close> once;
  the parent's loop \<^verbatim>\<open>for range length { err := <-errChan; if err != nil { return err } }\<close>
  receives them in the order the tasks complete. \<open>drain\<close> runs that loop over the
  arrivals in completion order and gives the number of values it received together with
  what it returns; \<open>received\<close> counts the receives made so far.
\<close>

fun drain :: "error option list \<Rightarrow> nat \<Rightarrow> nat \<times> error option" where
  "drain [] received = (received, None)"
| "drain (None # arrivals) received = drain arrivals (Suc received)"
| "drain (Some err # arrivals) received = (Suc received, Some err)"

text \<open>
  The order of completion is not decided by the program. A schedule names it: the list
  \<open>ks\<close> picks, step by step, which of the tasks still running completes next (\<open>k mod\<close>
  the number still running), and when \<open>ks\<close> ends the rest complete in launch order.
  Every order of completion is named by some \<open>ks\<close>.
\<close>

function completion_order :: "nat list \<Rightarrow> 'a list \<Rightarrow> 'a list" where
  "completion_order ks [] = []"
| "completion_order [] (x # xs) = x # xs"
| "completion_order (k # ks) (x # xs) =
     (let i = k mod length (x # xs) in
      (x # xs) ! i # completion_order ks (take i (x # xs) @ drop (Suc i) (x # xs)))"
  by pat_completeness auto
termination
  by (relation "measure (\<lambda>(ks, xs). length xs)") auto

text \<open>What a task sends on the channel, and the barrier of one folder.\<close>

definition task_err :: "error + Node \<Rightarrow> error option" where
  "task_err r = (case r of Inl err \<Rightarrow> Some err | Inr _ \<Rightarrow> None)"

definition barrier :: "nat list \<Rightarrow> (error + Node) list \<Rightarrow> nat \<times> error option" where
  "barrier ks outcomes = drain (completion_order ks (map task_err outcomes)) 0"

text \<open>
  The results of the tasks that have all finished (\<open>None\<close> when one has not), and the
  child nodes as the tasks that succeeded left them.
\<close>

fun join_tasks :: "'a option list \<Rightarrow> 'a list option" where
  "join_tasks [] = Some []"
| "join_tasks (None # ts) = None"
| "join_tasks (Some r # ts) = map_option ((#) r) (join_tasks ts)"

fun filled :: "(error + Node) list \<Rightarrow> Node list" where
  "filled [] = []"
| "filled (Inl err # rs) = filled rs"
| "filled (Inr n # rs) = n # filled rs"

text \<open>
  \<^verbatim>\<open>FillFolderNode\<close>. The recursion follows the remote store, which need not be finite,
  so the function carries fuel, the depth of calls it may make: \<open>None\<close> means the call
  has not returned within it. \<open>sched\<close> gives the completion order at every barrier: at
  this folder \<open>sched []\<close>, in the task of child \<open>i\<close> the schedule \<open>\<lambda>p. sched (i # p)\<close>.
  The function returns the node as the call leaves it on success; after an error the
  caller discards the node. A task runs for each element of \<open>folderNode.Children\<close>, the
  children present before the call included, each on its own child (the loop variable
  is fresh in every iteration as of Go 1.22, the version \<^verbatim>\<open>for range length\<close> needs).
  The function gives a result only when every task has one, which is what a call that
  succeeds waits for; when some task has no result within the fuel it gives \<open>None\<close>,
  also where the code would already have returned an error received from another task.
\<close>

fun FillFolderNode ::
  "nat \<Rightarrow> Remote \<Rightarrow> Context \<Rightarrow> (nat list \<Rightarrow> nat list) \<Rightarrow> Node \<Rightarrow> (error + Node) option" where
  "FillFolderNode 0 env ctx sched folderNode = None"
| "FillFolderNode (Suc fuel) env ctx sched folderNode =
     (case ctx of
        Some e \<Rightarrow> Some (Inl e)
      | None \<Rightarrow>
          if \<not> IsDir folderNode then Some (Inl NotAFolder)
          else
            (case RetrieveFoldersOfFolder env ctx (Id folderNode) of
               Inl err \<Rightarrow> Some (Inl err)
             | Inr folders \<Rightarrow>
                 (let children = Children folderNode @ map folder_node folders in
                  case join_tasks
                         (map (\<lambda>(i, childrenNode).
                                 FillFolderNode fuel env ctx (\<lambda>p. sched (i # p)) childrenNode)
                            (enumerate 0 children)) of
                    None \<Rightarrow> None
                  | Some outcomes \<Rightarrow>
                      (case snd (barrier (sched []) outcomes) of
                         Some err \<Rightarrow> Some (Inl err)
                       | None \<Rightarrow>
                           (case RetrieveFilesOfFolder env ctx (Id folderNode) of
                              Inl err \<Rightarrow> Some (Inl err)
                            | Inr files \<Rightarrow>
                                Some (Inr (Node
                                  (filled outcomes @
                                   map file_node
                                     (filter (\<lambda>file. file_IsReadable file \<and>
                                                      file_IsDownloadable file) files))
                                  (Name folderNode) (Id folderNode) (IsDir folderNode)
                                  (ChDate folderNode) (Size folderNode)
                                  (ContentType folderNode))))))))"

definition GetCourseFileTree ::
  "nat \<Rightarrow> Remote \<Rightarrow> Context \<Rightarrow> (nat list \<Rightarrow> nat list) \<Rightarrow> string \<Rightarrow> (error + Node) option" where
  "GetCourseFileTree fuel env ctx sched rootFolderID =
     (case ctx of
        Some e \<Rightarrow> Some (Inl e)
      | None \<Rightarrow> FillFolderNode fuel env ctx sched (Node [] '''' rootFolderID True 0 0 []))"

text \<open>All the nodes of a tree, the root first.\<close>

fun subnodes :: "Node \<Rightarrow> Node list" where
  "subnodes (Node cs nm i d t sz ct) = Node cs nm i d t sz ct # concat (map subnodes cs)"

text \<open>A node without its children.\<close>

definition shallow :: "Node \<Rightarrow> Node" where
  "shallow n = Node [] (Name n) (Id n) (IsDir n) (ChDate n) (Size n) (ContentType n)"

section \<open>Initialisation\<close>

text \<open>
  \<^verbatim>\<open>NewFs\<close>. \<open>m\<close> is the outcome of \<^verbatim>\<open>configstruct.Set\<close> on the configuration. Setting
  up the REST client reveals the password. When \<open>root\<close> is not empty the root node is
  replaced by what the resolver returns for the parent directory of \<open>root\<close>, whatever
  that is.
\<close>

definition NewFs ::
  "nat \<Rightarrow> Remote \<Rightarrow> (nat list \<Rightarrow> nat list) \<Rightarrow> Context \<Rightarrow> string \<Rightarrow> string \<Rightarrow>
   error + Options \<Rightarrow> (error + Fs) outcome option" where
  "NewFs fuel env sched ctx name_arg root_arg m =
     (case ctx of
        Some e \<Rightarrow> Some (Returns (Inl e))
      | None \<Rightarrow>
     (case m of
        Inl err \<Rightarrow> Some (Returns (Inl err))
      | Inr opt_arg \<Rightarrow>
     if CourseID opt_arg = '''' then Some (Returns (Inl CourseIDRequired))
     else
     (case url_Parse env (BaseURL opt_arg) of
        Some err \<Rightarrow> Some (Returns (Inl (InvalidBaseURL (BaseURL opt_arg))))
      | None \<Rightarrow>
     (case obscure_Reveal env (Password opt_arg) of
        Inl err \<Rightarrow> Some Exits
      | Inr password \<Rightarrow>
     (let f = \<lparr>name = name_arg, opt = opt_arg, root = root_arg, rootNode = None\<rparr> in
      case TestConnection env f ctx of
        Some err \<Rightarrow> Some (Returns (Inl err))
      | None \<Rightarrow>
     (case RetrieveRootFolderID env f ctx of
        Inl err \<Rightarrow> Some (Returns (Inl err))
      | Inr rootID \<Rightarrow>
     (case GetCourseFileTree fuel env ctx sched rootID of
        None \<Rightarrow> None
      | Some (Inl err) \<Rightarrow> Some (Returns (Inl err))
      | Some (Inr tree) \<Rightarrow>
          if root_arg \<noteq> '''' then
            (case GetNodeAtPath (Some tree) (splitPath (filepath_Dir root_arg)) of
               Panics \<Rightarrow> Some Panics
             | Exits \<Rightarrow> Some Exits
             | Returns node \<Rightarrow> Some (Returns (Inr (f\<lparr>rootNode := node\<rparr>))))
          else Some (Returns (Inr (f\<lparr>rootNode := Some tree\<rparr>))))))))))"

section \<open>The operations that change nothing\<close>

text \<open>
  The write-class methods of \<^verbatim>\<open>Fs\<close> and \<^verbatim>\<open>Object\<close>, and \<^verbatim>\<open>Object.Open\<close> beside them.
  Each takes the log of the requests issued through the REST client so far and returns
  it with its result: a method that calls the client appends the request path.
\<close>

type_synonym requests = "string list"

definition Fs_Put ::
  "Fs \<Rightarrow> Context \<Rightarrow> string \<Rightarrow> DirEntry \<Rightarrow> string list \<Rightarrow> requests \<Rightarrow>
   (error + DirEntry) \<times> requests" where
  "Fs_Put f ctx input src options reqs = (Inl ErrorPermissionDenied, reqs)"

definition Fs_Mkdir :: "Fs \<Rightarrow> Context \<Rightarrow> string \<Rightarrow> requests \<Rightarrow> (error + unit) \<times> requests" where
  "Fs_Mkdir f ctx dir reqs = (Inl ErrorPermissionDenied, reqs)"

definition Fs_Rmdir :: "Fs \<Rightarrow> Context \<Rightarrow> string \<Rightarrow> requests \<Rightarrow> (error + unit) \<times> requests" where
  "Fs_Rmdir f ctx dir reqs = (Inl ErrorPermissionDenied, reqs)"

definition Fs_Purge :: "Fs \<Rightarrow> Context \<Rightarrow> string \<Rightarrow> requests \<Rightarrow> (error + unit) \<times> requests" where
  "Fs_Purge f ctx dir reqs = (Inl ErrorPermissionDenied, reqs)"

definition Fs_Copy ::
  "Fs \<Rightarrow> Context \<Rightarrow> DirEntry \<Rightarrow> string \<Rightarrow> requests \<Rightarrow> (error + DirEntry) \<times> requests" where
  "Fs_Copy f ctx src remote_arg reqs = (Inl ErrorPermissionDenied, reqs)"

definition Fs_Move ::
  "Fs \<Rightarrow> Context \<Rightarrow> DirEntry \<Rightarrow> string \<Rightarrow> requests \<Rightarrow> (error + DirEntry) \<times> requests" where
  "Fs_Move f ctx src remote_arg reqs = (Inl ErrorPermissionDenied, reqs)"

definition Fs_DirMove ::
  "Fs \<Rightarrow> Context \<Rightarrow> Fs \<Rightarrow> string \<Rightarrow> string \<Rightarrow> requests \<Rightarrow> (error + unit) \<times> requests" where
  "Fs_DirMove f ctx src srcRemote dstRemote reqs = (Inl ErrorPermissionDenied, reqs)"

definition Object_SetModTime ::
  "DirEntry \<Rightarrow> Context \<Rightarrow> Time \<Rightarrow> requests \<Rightarrow> (error + unit) \<times> requests" where
  "Object_SetModTime obj ctx t reqs = (Inl ErrorNotImplemented, reqs)"

definition Object_Update ::
  "DirEntry \<Rightarrow> Context \<Rightarrow> string \<Rightarrow> DirEntry \<Rightarrow> string list \<Rightarrow> requests \<Rightarrow>
   (error + unit) \<times> requests" where
  "Object_Update obj ctx input src options reqs = (Inl ErrorNotImplemented, reqs)"

definition Object_Remove :: "DirEntry \<Rightarrow> Context \<Rightarrow> requests \<Rightarrow> (error + unit) \<times> requests" where
  "Object_Remove obj ctx reqs = (Inl ErrorNotImplemented, reqs)"

definition Object_Open ::
  "Remote \<Rightarrow> DirEntry \<Rightarrow> Context \<Rightarrow> string list \<Rightarrow> requests \<Rightarrow>
   (error + string) \<times> requests" where
  "Object_Open env obj ctx options reqs =
     (case ctx of
        Some e \<Rightarrow> (Inl e, reqs)
      | None \<Rightarrow>
          (let URL = ''file-refs/'' @ id' obj @ ''/content'' in
           case get_content env URL of
             Inl err \<Rightarrow> (Inl err, reqs @ [URL])
           | Inr (StatusCode, Body) \<Rightarrow>
               if StatusCode div 100 \<noteq> 2 then (Inl (HTTPStatus StatusCode), reqs @ [URL])
               else (Inr Body, reqs @ [URL])))"

section \<open>A small course\<close>

text \<open>
  A remote store used to run the definitions: the course \<open>c1\<close> with root folder \<open>top\<close>,
  which holds the folders \<open>docs\<close> and \<open>slides\<close> and the files \<open>notes.txt\<close> and
  \<open>secret.txt\<close> (not readable); \<open>docs\<close> holds \<open>a.pdf\<close> and \<open>draft.pdf\<close> (not
  downloadable). Every other request fails.
\<close>

definition example_remote :: Remote where
  "example_remote =
     \<lparr>url_Parse = (\<lambda>u. None),
      obscure_Reveal = (\<lambda>x. Inr x),
      get_courses = (\<lambda>p. if p = ''courses/c1'' then Inr ''c1'' else Inl (CallError p)),
      get_folders = (\<lambda>p.
        if p = ''courses/c1/folders'' then
          Inr [\<lparr>folder_ID = ''t0'', folder_FolderType = ''StandardFolder'',
                folder_Name = ''Trash'', folder_Chdate = 0\<rparr>,
               \<lparr>folder_ID = ''top'', folder_FolderType = ''RootFolder'',
                folder_Name = ''Course'', folder_Chdate = 0\<rparr>]
        else if p = ''folders/top/folders'' then
          Inr [\<lparr>folder_ID = ''d1'', folder_FolderType = ''StandardFolder'',
                folder_Name = ''docs'', folder_Chdate = 7\<rparr>,
               \<lparr>folder_ID = ''d2'', folder_FolderType = ''StandardFolder'',
                folder_Name = ''slides'', folder_Chdate = 8\<rparr>]
        else if p = ''folders/d1/folders'' then Inr []
        else if p = ''folders/d2/folders'' then Inr []
        else Inl (CallError p)),
      get_files = (\<lambda>p.
        if p = ''folders/top/file-refs'' then
          Inr [\<lparr>file_ID = ''f2'', file_Name = ''notes.txt'', file_Chdate = 3, file_Filesize = 5,
                file_MimeType = ''text/plain'', file_IsReadable = True,
                file_IsDownloadable = True\<rparr>,
               \<lparr>file_ID = ''f3'', file_Name = ''secret.txt'', file_Chdate = 4, file_Filesize = 9,
                file_MimeType = ''text/plain'', file_IsReadable = False,
                file_IsDownloadable = True\<rparr>]
        else if p = ''folders/d1/file-refs'' then
          Inr [\<lparr>file_ID = ''f1'', file_Name = ''a.pdf'', file_Chdate = 2, file_Filesize = 10,
                file_MimeType = ''application/pdf'', file_IsReadable = True,
                file_IsDownloadable = True\<rparr>,
               \<lparr>file_ID = ''f4'', file_Name = ''draft.pdf'', file_Chdate = 5, file_Filesize = 11,
                file_MimeType = ''application/pdf'', file_IsReadable = True,
                file_IsDownloadable = False\<rparr>]
        else if p = ''folders/d2/file-refs'' then Inr []
        else Inl (CallError p)),
      get_content = (\<lambda>p. Inl (CallError p))\<rparr>"

text \<open>The same course when the folders of \<open>slides\<close> cannot be fetched.\<close>

definition example_failing_remote :: Remote where
  "example_failing_remote =
     example_remote
       \<lparr>get_folders := (\<lambda>p. if p = ''folders/d2/folders'' then Inl (CallError p)
                             else get_folders example_remote p)\<rparr>"

definition example_options :: Options where
  "example_options =
     \<lparr>BaseURL = ''https://studip.example/jsonapi.php/v1/'', Username = ''u'',
      Password = ''p'', CourseID = ''c1''\<rparr>"

text \<open>The snapshot of that course.\<close>

definition example_tree :: Node where
  "example_tree =
     Node [Node [Node [] ''a.pdf'' ''f1'' False 2 10 ''application/pdf'']
             ''docs'' ''d1'' True 7 (- 1) [],
           Node [] ''slides'' ''d2'' True 8 (- 1) [],
           Node [] ''notes.txt'' ''f2'' False 3 5 ''text/plain'']
       [] ''top'' True 0 0 []"

definition example_fs :: Fs where
  "example_fs =
     \<lparr>name = ''studip'', opt = example_options, root = [], rootNode = Some example_tree\<rparr>"

text \<open>A directory whose children are the files \<open>b\<close>, \<open>A\<close> and \<open>c\<close>, fetched in that order.\<close>

definition example_flat :: Fs where
  "example_flat =
     \<lparr>name = ''studip'', opt = example_options, root = [],
      rootNode = Some (Node [Node [] ''b'' ''1'' False 0 1 [],
                             Node [] ''A'' ''2'' False 0 1 [],
                             Node [] ''c'' ''3'' False 0 1 []]
                         [] ''top'' True 0 0 [])\<rparr>"

section \<open>Properties of the path resolver\<close>

text \<open>
  C6. Resolving the empty segment sequence, the sequence \<open>[.]\<close> or the sequence holding
  one empty segment against any node (a nil one included) returns that node unchanged.
\<close>

theorem GetNodeAtPath_root_paths:
  "GetNodeAtPath node [] = Returns node \<and>
   GetNodeAtPath node [''.''] = Returns node \<and>
   GetNodeAtPath node [''''] = Returns node"
  by simp

text \<open>
  C9. When the first segment is \<open>.\<close> or empty, the resolver returns the current node at
  once and ignores the remaining segments: \<open>[., docs]\<close> against a node with a child
  named \<open>docs\<close> resolves to the node, not to the child.
\<close>

theorem GetNodeAtPath_first_segment_dot:
  "GetNodeAtPath node (''.'' # rest) = Returns node \<and>
   GetNodeAtPath node ('''' # rest) = Returns node \<and>
   GetNodeAtPath (Some (Node [Node [] ''docs'' ''d1'' True 0 (-1) []] '''' ''r'' True 0 0 []))
       [''.'', ''docs'']
     = Returns (Some (Node [Node [] ''docs'' ''d1'' True 0 (-1) []] '''' ''r'' True 0 0 [])) \<and>
   GetNodeAtPath (Some (Node [Node [] ''docs'' ''d1'' True 0 (-1) []] '''' ''r'' True 0 0 []))
       [''docs'']
     = Returns (Some (Node [] ''docs'' ''d1'' True 0 (-1) []))"
  by simp

text \<open>The resolver only ever returns a node of the tree it is given.\<close>

lemma set_subnodes: "set (subnodes n) = insert n (\<Union>c \<in> set (Children n). set (subnodes c))"
  by (cases n) auto

lemma subnodes_self: "n \<in> set (subnodes n)"
  by (cases n) simp

lemma subnodes_trans:
  "r \<in> set (subnodes t) \<Longrightarrow> d \<in> set (subnodes r) \<Longrightarrow> d \<in> set (subnodes t)"
proof (induction t)
  case (Node cs nm i dr tm sz ct)
  show ?case
  proof (cases "r = Node cs nm i dr tm sz ct")
    case True
    with Node.prems show ?thesis by simp
  next
    case False
    with Node.prems obtain c where c: "c \<in> set cs" "r \<in> set (subnodes c)" by auto
    with Node.IH Node.prems have "d \<in> set (subnodes c)" by blast
    with c show ?thesis by auto
  qed
qed

lemma GetNodeAtPath_subnode:
  "GetNodeAtPath (Some r) p = Returns (Some d) \<Longrightarrow> d \<in> set (subnodes r)"
proof (induction p arbitrary: r)
  case Nil
  then show ?case by (simp add: subnodes_self)
next
  case (Cons seg rest)
  show ?case
  proof (cases "seg = ''.'' \<or> seg = []")
    case True
    with Cons.prems show ?thesis by (auto simp: subnodes_self)
  next
    case False
    with Cons.prems obtain c where f: "find (\<lambda>children. Name children = seg) (Children r) = Some c"
      and g: "GetNodeAtPath (Some c) rest = Returns (Some d)"
      by (auto split: option.splits)
    from f have "c \<in> set (Children r)" by (auto simp: find_Some_iff)
    moreover from Cons.IH[OF g] have "d \<in> set (subnodes c)" .
    ultimately show ?thesis by (auto simp: set_subnodes[of r])
  qed
qed

text \<open>From a node that is not nil the resolver never panics.\<close>

lemma GetNodeAtPath_Some_Returns: "\<exists>res. GetNodeAtPath (Some r) p = Returns res"
  by (induction p arbitrary: r) (auto split: option.splits)

section \<open>Properties of the listing\<close>

lemma Fs_List_Inr:
  "(Fs_List f ctx dir = Returns (Inr entries)) =
     (ctx = None \<and>
      (\<exists>node. GetNodeAtPath (rootNode f) (strings_Split dir CHR ''/'') = Returns (Some node) \<and>
         IsDir node \<and> entries = sort_Slice Less (map (entry_of dir) (Children node))))"
  by (auto simp: Fs_List_def split: option.splits outcome.splits)

text \<open>
  When the resolver returns nil, \<^verbatim>\<open>List\<close> panics: it never reaches its
  \<^verbatim>\<open>return nil, fs.ErrorDirNotFound\<close>.
\<close>

lemma Fs_List_nil_node:
  "GetNodeAtPath (rootNode f) (strings_Split dir CHR ''/'') = Returns None \<Longrightarrow>
   Fs_List f None dir = Panics"
  by (simp add: Fs_List_def)

text \<open>
  C2. The claim is that \<^verbatim>\<open>List\<close> answers a path with no matching child by the error
  \<^verbatim>\<open>ErrorDirNotFound\<close> and no entries, without crashing. In the code the call panics:
  listing \<open>missing\<close> in the snapshot of the small course, whose root has no child of
  that name, dereferences the nil node the resolver returned.
\<close>

theorem Fs_List_missing_dir_panics:
  "GetNodeAtPath (rootNode example_fs) (strings_Split ''missing'' CHR ''/'') = Returns None \<and>
   Fs_List example_fs None ''missing'' = Panics \<and>
   Fs_List example_fs None ''missing'' \<noteq> Returns (Inl ErrorDirNotFound)"
  by (simp add: Fs_List_def example_fs_def example_tree_def)

text \<open>The order of entries: \<open>Less\<close> is a strict weak order.\<close>

lemma Less_asym: "Less a b \<Longrightarrow> \<not> Less b a"
  by (auto simp: Less_def CompareDirEntries_def Let_def split: if_splits)

lemma Less_negtrans: "\<not> Less a b \<Longrightarrow> \<not> Less b c \<Longrightarrow> \<not> Less a c"
  by (auto simp: Less_def CompareDirEntries_def Let_def split: if_splits)

lemma not_Less_iff:
  "(\<not> Less b a) =
     (remote a < remote b \<or> (remote a = remote b \<and> DirEntryType a \<le> DirEntryType b))"
  by (auto simp: Less_def CompareDirEntries_def Let_def split: if_splits)

text \<open>The insertion sort returns a permutation, sorted when the comparison is such an order.\<close>

lemma mset_sift: "mset (sift lt ys x) = add_mset x (mset ys)"
  by (induction ys) auto

lemma set_sift: "set (sift lt ys x) = insert x (set ys)"
  by (induction ys) auto

lemma mset_foldl_sift: "mset (foldl (sift lt) acc xs) = mset acc + mset xs"
  by (induction xs arbitrary: acc) (auto simp: mset_sift)

lemma mset_sort_Slice: "mset (sort_Slice lt xs) = mset xs"
  by (simp add: sort_Slice_def mset_foldl_sift)

lemma sorted_sift:
  assumes asym: "\<And>a b. lt a b \<Longrightarrow> \<not> lt b a"
    and nt: "\<And>a b c. \<not> lt a b \<Longrightarrow> \<not> lt b c \<Longrightarrow> \<not> lt a c"
  shows "sorted_wrt (\<lambda>a b. \<not> lt a b) ys \<Longrightarrow> sorted_wrt (\<lambda>a b. \<not> lt a b) (sift lt ys x)"
proof (induction ys)
  case Nil
  then show ?case by simp
next
  case (Cons y ys)
  show ?case
  proof (cases "lt x y")
    case True
    with Cons asym show ?thesis by (auto simp: set_sift)
  next
    case False
    with Cons nt show ?thesis by auto
  qed
qed

lemma sorted_foldl_sift:
  assumes asym: "\<And>a b. lt a b \<Longrightarrow> \<not> lt b a"
    and nt: "\<And>a b c. \<not> lt a b \<Longrightarrow> \<not> lt b c \<Longrightarrow> \<not> lt a c"
  shows "sorted_wrt (\<lambda>a b. \<not> lt a b) acc \<Longrightarrow>
         sorted_wrt (\<lambda>a b. \<not> lt a b) (foldl (sift lt) acc xs)"
proof (induction xs arbitrary: acc)
  case Nil
  then show ?case by simp
next
  case (Cons x xs)
  then show ?case using sorted_sift[of lt acc x, OF asym nt] by simp
qed

lemma sorted_sort_Slice:
  assumes asym: "\<And>a b. lt a b \<Longrightarrow> \<not> lt b a"
    and nt: "\<And>a b c. \<not> lt a b \<Longrightarrow> \<not> lt b c \<Longrightarrow> \<not> lt a c"
  shows "sorted_wrt (\<lambda>a b. \<not> lt b a) (sort_Slice lt xs)"
proof -
  have "sorted_wrt (\<lambda>a b. \<not> lt a b) (foldl (sift lt) [] xs)"
    using sorted_foldl_sift[of lt "[]" xs, OF asym nt] by simp
  then show ?thesis
    by (simp add: sort_Slice_def sorted_wrt_rev)
qed

text \<open>
  C4. The claim is that a listing is sorted by name under a case-insensitive comparison.
  What holds: a listing that succeeds holds exactly the entries of the children of the
  resolved directory, sorted ascending by remote path (\<^verbatim>\<open>filepath.Join(dir, name)\<close>) under
  the byte-wise, case-sensitive comparison, a directory before a file of the same path.
\<close>

theorem Fs_List_sorted_bytewise:
  assumes "Fs_List f ctx dir = Returns (Inr entries)"
  shows "sorted_wrt (\<lambda>a b. remote a < remote b \<or>
                           (remote a = remote b \<and> DirEntryType a \<le> DirEntryType b)) entries \<and>
         (\<exists>node. GetNodeAtPath (rootNode f) (strings_Split dir CHR ''/'') = Returns (Some node) \<and>
                 IsDir node \<and> mset entries = mset (map (entry_of dir) (Children node)))"
proof -
  from assms obtain node where
    g: "GetNodeAtPath (rootNode f) (strings_Split dir CHR ''/'') = Returns (Some node)" and
    d: "IsDir node" and
    e: "entries = sort_Slice Less (map (entry_of dir) (Children node))"
    unfolding Fs_List_Inr by blast
  have "sorted_wrt (\<lambda>a b. \<not> Less b a) entries"
    unfolding e by (rule sorted_sort_Slice) (erule Less_asym, erule (1) Less_negtrans)
  then have "sorted_wrt (\<lambda>a b. remote a < remote b \<or>
                           (remote a = remote b \<and> DirEntryType a \<le> DirEntryType b)) entries"
    by (simp only: not_Less_iff)
  moreover have "mset entries = mset (map (entry_of dir) (Children node))"
    unfolding e by (rule mset_sort_Slice)
  ultimately show ?thesis using g d by blast
qed

text \<open>The children \<open>b\<close>, \<open>A\<close>, \<open>c\<close> are listed in the order \<open>A\<close>, \<open>b\<close>, \<open>c\<close>.\<close>

theorem Fs_List_sorted_bytewise_witness:
  "Fs_List example_flat None [] =
     Returns (Inr [Object ''A'' ''2'' 1 False [] 0, Object ''b'' ''1'' 1 False [] 0,
                   Object ''c'' ''3'' 1 False [] 0]) \<and>
   sorted_wrt (\<lambda>a b. remote a < remote b \<or>
                     (remote a = remote b \<and> DirEntryType a \<le> DirEntryType b))
     [Object ''A'' ''2'' 1 False [] 0, Object ''b'' ''1'' 1 False [] 0,
      Object ''c'' ''3'' 1 False [] 0]"
proof -
  have l: "Fs_List example_flat None [] =
     Returns (Inr [Object ''A'' ''2'' 1 False [] 0, Object ''b'' ''1'' 1 False [] 0,
                   Object ''c'' ''3'' 1 False [] 0])"
    by (simp add: Fs_List_def example_flat_def sort_Slice_def entry_of_def filepath_Join_def
          path_Clean_def Less_def CompareDirEntries_def)
  from Fs_List_sorted_bytewise[OF l] l show ?thesis by blast
qed

text \<open>
  The files \<open>a\<close> and \<open>B\<close> are listed as \<open>B\<close>, \<open>a\<close>, which the case-insensitive
  comparison of the specification does not accept as ascending.
\<close>

theorem Fs_List_not_caseless_counterexample:
  "Fs_List \<lparr>name = ''studip'', opt = example_options, root = [],
            rootNode = Some (Node [Node [] ''a'' ''1'' False 0 1 [],
                                   Node [] ''B'' ''2'' False 0 1 []]
                               [] ''top'' True 0 0 [])\<rparr> None []
     = Returns (Inr [Object ''B'' ''2'' 1 False [] 0, Object ''a'' ''1'' 1 False [] 0]) \<and>
   \<not> sorted_wrt (\<lambda>x y. spec_caseless_le (remote x) (remote y))
        [Object ''B'' ''2'' 1 False [] 0, Object ''a'' ''1'' 1 False [] 0]"
  by (simp add: Fs_List_def sort_Slice_def entry_of_def filepath_Join_def path_Clean_def
        Less_def CompareDirEntries_def spec_caseless_le_def spec_fold_case_def)

section \<open>Properties of the write-class operations\<close>

text \<open>
  C3. The claim is that every write-class operation returns \<^verbatim>\<open>PermissionDenied\<close> without
  a remote request. What holds: the operations of \<^verbatim>\<open>Fs\<close> (\<^verbatim>\<open>Put\<close>, \<^verbatim>\<open>Mkdir\<close>, \<^verbatim>\<open>Rmdir\<close>,
  \<^verbatim>\<open>Purge\<close>, \<^verbatim>\<open>Copy\<close>, \<^verbatim>\<open>Move\<close>, \<^verbatim>\<open>DirMove\<close>) return \<^verbatim>\<open>ErrorPermissionDenied\<close> and those
  of \<^verbatim>\<open>Object\<close> (\<^verbatim>\<open>SetModTime\<close>, \<^verbatim>\<open>Update\<close>, \<^verbatim>\<open>Remove\<close>) return \<^verbatim>\<open>ErrorNotImplemented\<close>,
  for every argument, and none of them issues a request: the log is returned as it was.
\<close>

theorem write_operations_refused:
  "Fs_Put f ctx input src options reqs = (Inl ErrorPermissionDenied, reqs) \<and>
   Fs_Mkdir f ctx dir reqs = (Inl ErrorPermissionDenied, reqs) \<and>
   Fs_Rmdir f ctx dir reqs = (Inl ErrorPermissionDenied, reqs) \<and>
   Fs_Purge f ctx dir reqs = (Inl ErrorPermissionDenied, reqs) \<and>
   Fs_Copy f ctx src remote_arg reqs = (Inl ErrorPermissionDenied, reqs) \<and>
   Fs_Move f ctx src remote_arg reqs = (Inl ErrorPermissionDenied, reqs) \<and>
   Fs_DirMove f ctx srcFs srcRemote dstRemote reqs = (Inl ErrorPermissionDenied, reqs) \<and>
   Object_SetModTime obj ctx t reqs = (Inl ErrorNotImplemented, reqs) \<and>
   Object_Update obj ctx input src options reqs = (Inl ErrorNotImplemented, reqs) \<and>
   Object_Remove obj ctx reqs = (Inl ErrorNotImplemented, reqs)"
  by (simp add: Fs_Put_def Fs_Mkdir_def Fs_Rmdir_def Fs_Purge_def Fs_Copy_def Fs_Move_def
        Fs_DirMove_def Object_SetModTime_def Object_Update_def Object_Remove_def)

text \<open>
  Setting the timestamp of, uploading to and removing the file \<open>notes.txt\<close> do not
  return \<^verbatim>\<open>ErrorPermissionDenied\<close>.
\<close>

theorem Object_writes_not_PermissionDenied_counterexample:
  "fst (Object_SetModTime (Object ''notes.txt'' ''f2'' 5 False ''text/plain'' 3) None 0 [])
     \<noteq> Inl ErrorPermissionDenied \<and>
   fst (Object_Update (Object ''notes.txt'' ''f2'' 5 False ''text/plain'' 3) None ''data''
          (Object ''notes.txt'' ''f2'' 5 False ''text/plain'' 3) [] [])
     \<noteq> Inl ErrorPermissionDenied \<and>
   fst (Object_Remove (Object ''notes.txt'' ''f2'' 5 False ''text/plain'' 3) None [])
     \<noteq> Inl ErrorPermissionDenied"
  by (simp add: Object_SetModTime_def Object_Update_def Object_Remove_def)

text \<open>By contrast, opening a file issues one request.\<close>

lemma Object_Open_requests:
  "snd (Object_Open env obj None options reqs) = reqs @ [''file-refs/'' @ id' obj @ ''/content'']"
  by (simp add: Object_Open_def Let_def split: sum.splits prod.splits)

section \<open>Properties of the root folder lookup\<close>

lemma slices_IndexFunc_ge: "slices_IndexFunc xs P \<ge> - 1"
  by (induction xs) (auto simp: Let_def)

lemma slices_IndexFunc_none: "(slices_IndexFunc xs P = - 1) = (\<forall>x \<in> set xs. \<not> P x)"
proof (induction xs)
  case Nil
  then show ?case by simp
next
  case (Cons x xs)
  from slices_IndexFunc_ge[of xs P] have "slices_IndexFunc xs P + 1 \<noteq> - 1" by linarith
  with Cons show ?case by (auto simp: Let_def)
qed

lemma slices_IndexFunc_first:
  "slices_IndexFunc xs P \<noteq> - 1 \<Longrightarrow>
     nat (slices_IndexFunc xs P) < length xs \<and> P (xs ! nat (slices_IndexFunc xs P)) \<and>
     (\<forall>j < nat (slices_IndexFunc xs P). \<not> P (xs ! j))"
proof (induction xs)
  case Nil
  then show ?case by simp
next
  case (Cons x xs)
  show ?case
  proof (cases "P x")
    case True
    then show ?thesis by simp
  next
    case False
    with Cons.prems have ne: "slices_IndexFunc xs P \<noteq> - 1"
      by (auto simp: Let_def split: if_splits)
    from slices_IndexFunc_ge[of xs P] ne have ge0: "slices_IndexFunc xs P \<ge> 0" by linarith
    then have n: "nat (slices_IndexFunc xs P + 1) = Suc (nat (slices_IndexFunc xs P))"
      by linarith
    from Cons.IH[OF ne] False ne n show ?thesis
      by (auto simp: Let_def less_Suc_eq_0_disj)
  qed
qed

text \<open>
  C7. When the course's folder listing has been fetched and decoded,
  \<^verbatim>\<open>RetrieveRootFolderID\<close> fails with the error \<open>NoRootFolder\<close> exactly when no entry
  has the folder type \<open>RootFolder\<close>, and otherwise returns the identifier of the first
  entry that has it.
\<close>

theorem RetrieveRootFolderID_first_root:
  assumes "get_folders env (''courses/'' @ CourseID (opt f) @ ''/folders'') = Inr responseData"
  shows "((RetrieveRootFolderID env f None = Inl NoRootFolder) =
            (\<forall>e \<in> set responseData. folder_FolderType e \<noteq> ''RootFolder'')) \<and>
         (\<forall>ident. (RetrieveRootFolderID env f None = Inr ident) =
            (\<exists>i < length responseData.
               folder_FolderType (responseData ! i) = ''RootFolder'' \<and>
               (\<forall>j < i. folder_FolderType (responseData ! j) \<noteq> ''RootFolder'') \<and>
               ident = folder_ID (responseData ! i)))"
proof -
  let ?P = "\<lambda>e. folder_FolderType e = ''RootFolder''"
  have one: "(RetrieveRootFolderID env f None = Inl NoRootFolder) =
           (\<forall>e \<in> set responseData. folder_FolderType e \<noteq> ''RootFolder'')"
    using assms slices_IndexFunc_none[of responseData ?P]
    by (auto simp: RetrieveRootFolderID_def Let_def)
  have two: "(RetrieveRootFolderID env f None = Inr ident) =
           (\<exists>i < length responseData.
              folder_FolderType (responseData ! i) = ''RootFolder'' \<and>
              (\<forall>j < i. folder_FolderType (responseData ! j) \<noteq> ''RootFolder'') \<and>
              ident = folder_ID (responseData ! i))" (is "?L = ?R") for ident
  proof
    assume ?L
    with assms have ne: "slices_IndexFunc responseData ?P \<noteq> - 1"
      and id: "ident = folder_ID (responseData ! nat (slices_IndexFunc responseData ?P))"
      by (auto simp: RetrieveRootFolderID_def Let_def split: if_splits)
    from slices_IndexFunc_first[OF ne] id show ?R by blast
  next
    assume ?R
    then obtain i where i: "i < length responseData" "?P (responseData ! i)"
      "\<forall>j < i. \<not> ?P (responseData ! j)" "ident = folder_ID (responseData ! i)" by blast
    from i(1,2) have "\<not> (\<forall>x \<in> set responseData. \<not> ?P x)" using nth_mem by blast
    then have ne: "slices_IndexFunc responseData ?P \<noteq> - 1"
      using slices_IndexFunc_none[of responseData ?P] by simp
    from slices_IndexFunc_first[OF ne]
    have k: "nat (slices_IndexFunc responseData ?P) < length responseData"
      "?P (responseData ! nat (slices_IndexFunc responseData ?P))"
      "\<forall>j < nat (slices_IndexFunc responseData ?P). \<not> ?P (responseData ! j)" by blast+
    have "nat (slices_IndexFunc responseData ?P) = i"
      using i k by (metis linorder_neqE_nat)
    with assms ne i(4) show ?L by (simp add: RetrieveRootFolderID_def Let_def)
  qed
  from one two show ?thesis by blast
qed

text \<open>
  In the small course the listing holds the root folder \<open>top\<close> after another folder;
  in a course without a root folder the lookup fails.
\<close>

theorem RetrieveRootFolderID_first_root_witness:
  "get_folders example_remote (''courses/'' @ CourseID (opt example_fs) @ ''/folders'') =
     Inr [\<lparr>folder_ID = ''t0'', folder_FolderType = ''StandardFolder'',
           folder_Name = ''Trash'', folder_Chdate = 0\<rparr>,
          \<lparr>folder_ID = ''top'', folder_FolderType = ''RootFolder'',
           folder_Name = ''Course'', folder_Chdate = 0\<rparr>] \<and>
   RetrieveRootFolderID example_remote example_fs None = Inr ''top'' \<and>
   RetrieveRootFolderID example_remote example_fs None \<noteq> Inl NoRootFolder"
proof -
  have r: "get_folders example_remote (''courses/'' @ CourseID (opt example_fs) @ ''/folders'') =
     Inr [\<lparr>folder_ID = ''t0'', folder_FolderType = ''StandardFolder'',
           folder_Name = ''Trash'', folder_Chdate = 0\<rparr>,
          \<lparr>folder_ID = ''top'', folder_FolderType = ''RootFolder'',
           folder_Name = ''Course'', folder_Chdate = 0\<rparr>]"
    by (simp add: example_remote_def example_fs_def example_options_def)
  from RetrieveRootFolderID_first_root[OF r]
  have "RetrieveRootFolderID example_remote example_fs None \<noteq> Inl NoRootFolder"
    and "RetrieveRootFolderID example_remote example_fs None = Inr ''top''"
    by (auto simp: less_Suc_eq_0_disj)
  with r show ?thesis by blast
qed

section \<open>Properties of the barrier\<close>

lemma join_tasks_Some: "(join_tasks ts = Some rs) = (ts = map Some rs)"
proof (induction ts arbitrary: rs)
  case Nil
  then show ?case by auto
next
  case (Cons t ts)
  then show ?case by (cases t) (auto simp: map_eq_Cons_conv)
qed

text \<open>A schedule only reorders the results.\<close>

lemma set_completion_order: "set (completion_order ks xs) = set xs"
proof (induction ks xs rule: completion_order.induct)
  case (3 k ks x xs)
  let ?ys = "x # xs"
  let ?i = "k mod length ?ys"
  have i: "?i < length ?ys" by simp
  have "set ?ys = set (take ?i ?ys) \<union> insert (?ys ! ?i) (set (drop (Suc ?i) ?ys))"
    using i by (metis Cons_nth_drop_Suc append_take_drop_id list.simps(15) set_append)
  with 3 show ?case
    by (auto simp: Let_def simp del: take_Suc_Cons drop_Suc_Cons nth_Cons_Suc)
qed simp_all

text \<open>Every order of the results is the completion order under some schedule.\<close>

lemma completion_order_pick:
  "i < length xs \<Longrightarrow>
   completion_order (i # ks) xs = xs ! i # completion_order ks (take i xs @ drop (Suc i) xs)"
  by (cases xs) (simp_all add: Let_def del: take_Suc_Cons drop_Suc_Cons nth_Cons_Suc)

lemma completion_order_any:
  "mset ys = mset xs \<Longrightarrow> \<exists>ks. completion_order ks xs = ys"
proof (induction ys arbitrary: xs)
  case Nil
  then show ?case by simp
next
  case (Cons y ys)
  from Cons.prems have "y \<in> set xs" by (metis list.set_intros(1) mset_eq_setD)
  then obtain i where i: "i < length xs" "xs ! i = y" by (auto simp: in_set_conv_nth)
  let ?rest = "take i xs @ drop (Suc i) xs"
  from i have "xs = take i xs @ y # drop (Suc i) xs"
    using id_take_nth_drop[of i xs] by simp
  then have "mset xs = add_mset y (mset ?rest)"
    by (metis mset.simps(2) mset_append union_mset_add_mset_right)
  with Cons.prems have "mset ys = mset ?rest" by simp
  from Cons.IH[OF this] obtain ks where "completion_order ks ?rest = ys" by blast
  with i have "completion_order (i # ks) xs = y # ys" by (simp add: completion_order_pick)
  then show ?case by blast
qed

text \<open>The loop returns no error exactly when no task reported one.\<close>

lemma drain_None: "(snd (drain arrivals k) = None) = (\<forall>a \<in> set arrivals. a = None)"
  by (induction arrivals k rule: drain.induct) auto

lemma barrier_None:
  "(snd (barrier ks outcomes) = None) = (\<forall>r \<in> set outcomes. \<exists>n. r = Inr n)"
proof -
  have "(task_err r = None) = (\<exists>n. r = Inr n)" for r
    by (cases r) (auto simp: task_err_def)
  then show ?thesis
    by (simp add: barrier_def drain_None set_completion_order)
qed

lemma barrier_success:
  "(\<forall>r \<in> set outcomes. \<exists>n. r = Inr n) \<Longrightarrow> snd (barrier ks outcomes) = None"
  by (simp add: barrier_None)

text \<open>The loop stops at the first error it receives, whatever is still to arrive.\<close>

lemma drain_first_error:
  "drain (replicate k None @ Some err # rest) received = (received + k + 1, Some err)"
  by (induction k arbitrary: received) auto

text \<open>
  C1. The claim is that a folder whose child tasks include a failing one still waits for
  every task before it returns the error. In the code the loop returns at the first
  error it receives. In the course whose folder \<open>slides\<close> cannot be listed, with the task
  of \<open>slides\<close> completing before the task of \<open>docs\<close>: both tasks finish, the parent
  receives one result of the two and returns the error, and the result of \<open>docs\<close> is
  never received.
\<close>

theorem barrier_returns_at_first_error:
  "map (\<lambda>(i, childrenNode).
          FillFolderNode (Suc 0) example_failing_remote None (\<lambda>p. [1]) childrenNode)
     (enumerate 0 [Node [] ''docs'' ''d1'' True 7 (- 1) [],
                   Node [] ''slides'' ''d2'' True 8 (- 1) []])
     = [Some (Inr (Node [Node [] ''a.pdf'' ''f1'' False 2 10 ''application/pdf'']
                     ''docs'' ''d1'' True 7 (- 1) [])),
        Some (Inl (CallError ''folders/d2/folders''))] \<and>
   barrier [1]
     [Inr (Node [Node [] ''a.pdf'' ''f1'' False 2 10 ''application/pdf'']
             ''docs'' ''d1'' True 7 (- 1) []),
      Inl (CallError ''folders/d2/folders'')]
     = (1, Some (CallError ''folders/d2/folders'')) \<and>
   FillFolderNode (Suc (Suc 0)) example_failing_remote None (\<lambda>p. [1])
       (Node [] [] ''top'' True 0 0 [])
     = Some (Inl (CallError ''folders/d2/folders''))"
  by (simp add: example_failing_remote_def example_remote_def
        RetrieveFoldersOfFolder_def RetrieveFilesOfFolder_def folder_node_def file_node_def
        enumerate_eq_zip barrier_def task_err_def)

section \<open>Properties of the tree builder\<close>

lemma filled_map_Inr: "filled (map Inr ns) = ns"
  by (induction ns) auto

lemma all_Inr: "(\<forall>r \<in> set outcomes. \<exists>n. r = Inr n) = (outcomes = map Inr (filled outcomes))"
proof (induction outcomes)
  case Nil
  then show ?case by simp
next
  case (Cons r rs)
  show ?case
  proof (cases r)
    case (Inl e)
    have "length (filled rs) \<le> length rs" by (induction rs rule: filled.induct) auto
    then have "Inl e # rs \<noteq> map Inr (filled rs)"
      by (metis Suc_n_not_le_n length_Cons length_map)
    with Inl show ?thesis by auto
  next
    case (Inr n)
    with Cons show ?thesis by auto
  qed
qed

lemma shallow_simps [simp]:
  "shallow (folder_node fd) = folder_node fd"
  "shallow (file_node fl) = file_node fl"
  "IsDir (shallow n) = IsDir n" "Id (shallow n) = Id n"
  "IsDir (folder_node fd)" "\<not> IsDir (file_node fl)"
  "Children (folder_node fd) = []" "Children (file_node fl) = []"
  by (simp_all add: shallow_def folder_node_def file_node_def)

text \<open>One step of a call that succeeds.\<close>

lemma FillFolderNode_success:
  "(FillFolderNode (Suc fuel) env ctx sched n = Some (Inr t)) =
     (ctx = None \<and> IsDir n \<and>
      (\<exists>folders files kids.
         RetrieveFoldersOfFolder env None (Id n) = Inr folders \<and>
         RetrieveFilesOfFolder env None (Id n) = Inr files \<and>
         map (\<lambda>(i, c). FillFolderNode fuel env ctx (\<lambda>p. sched (i # p)) c)
             (enumerate 0 (Children n @ map folder_node folders)) = map (Some \<circ> Inr) kids \<and>
         t = Node (kids @ map file_node
                     (filter (\<lambda>file. file_IsReadable file \<and> file_IsDownloadable file) files))
               (Name n) (Id n) (IsDir n) (ChDate n) (Size n) (ContentType n)))"
  (is "?L = ?R")
proof
  assume L: ?L
  then have ctx: "ctx = None" and dir: "IsDir n"
    by (auto split: option.splits if_splits)
  from L ctx dir obtain folders where fo: "RetrieveFoldersOfFolder env None (Id n) = Inr folders"
    by (auto split: sum.splits)
  let ?tasks = "map (\<lambda>(i, c). FillFolderNode fuel env ctx (\<lambda>p. sched (i # p)) c)
             (enumerate 0 (Children n @ map folder_node folders))"
  from L ctx dir fo obtain outcomes where j: "join_tasks ?tasks = Some outcomes"
    by (auto simp: Let_def split: option.splits)
  from L ctx dir fo j have b: "snd (barrier (sched []) outcomes) = None"
    by (auto simp: Let_def split: option.splits)
  from L ctx dir fo j b obtain files where fi: "RetrieveFilesOfFolder env None (Id n) = Inr files"
    by (auto simp: Let_def split: sum.splits)
  from L ctx dir fo j b fi
  have t: "t = Node (filled outcomes @ map file_node
                       (filter (\<lambda>file. file_IsReadable file \<and> file_IsDownloadable file) files))
               (Name n) (Id n) (IsDir n) (ChDate n) (Size n) (ContentType n)"
    by (auto simp: Let_def)
  from b have "outcomes = map Inr (filled outcomes)"
    by (simp add: barrier_None all_Inr)
  with j have "?tasks = map (Some \<circ> Inr) (filled outcomes)"
    by (metis join_tasks_Some map_map)
  with ctx dir fo fi t show ?R by blast
next
  assume R: ?R
  then obtain folders files kids where
    ctx: "ctx = None" and dir: "IsDir n" and
    fo: "RetrieveFoldersOfFolder env None (Id n) = Inr folders" and
    fi: "RetrieveFilesOfFolder env None (Id n) = Inr files" and
    ts: "map (\<lambda>(i, c). FillFolderNode fuel env ctx (\<lambda>p. sched (i # p)) c)
             (enumerate 0 (Children n @ map folder_node folders)) = map (Some \<circ> Inr) kids" and
    t: "t = Node (kids @ map file_node
                    (filter (\<lambda>file. file_IsReadable file \<and> file_IsDownloadable file) files))
               (Name n) (Id n) (IsDir n) (ChDate n) (Size n) (ContentType n)"
    by blast
  have j: "join_tasks (map (Some \<circ> Inr) kids) = Some (map Inr kids)"
    by (simp add: join_tasks_Some)
  have b: "snd (barrier (sched []) (map Inr kids)) = None"
    by (simp add: barrier_None)
  from ts ctx
  have ts': "map (\<lambda>(i, c). FillFolderNode fuel env None (\<lambda>p. sched (i # p)) c)
             (enumerate 0 (Children n @ map folder_node folders)) = map (Some \<circ> Inr) kids"
    by simp
  show ?L
    using ctx dir fo fi t by (simp add: Let_def ts' j b filled_map_Inr)
qed

lemma tasks_nth:
  "(map (\<lambda>(i, c). G i c) (enumerate 0 cs) = map (Some \<circ> Inr) kids) =
     (length kids = length cs \<and> (\<forall>j < length cs. G j (cs ! j) = Some (Inr (kids ! j))))"
proof -
  have "(map (\<lambda>(i, c). G i c) (enumerate 0 cs) = map (Some \<circ> Inr) kids) =
        (length cs = length kids \<and>
         (\<forall>j < length cs. (map (\<lambda>(i, c). G i c) (enumerate 0 cs)) ! j =
                            (map (Some \<circ> Inr) kids) ! j))"
    by (subst list_eq_iff_nth_eq) simp
  also have "\<dots> = (length kids = length cs \<and>
                    (\<forall>j < length cs. G j (cs ! j) = Some (Inr (kids ! j))))"
    by (auto simp: nth_enumerate_eq)
  finally show ?thesis .
qed

text \<open>A call that succeeds changes nothing of the node but its children.\<close>

lemma FillFolderNode_shallow:
  "FillFolderNode fuel env ctx sched n = Some (Inr t) \<Longrightarrow> shallow t = shallow n"
proof (cases fuel)
  case 0
  assume "FillFolderNode fuel env ctx sched n = Some (Inr t)"
  with 0 show ?thesis by simp
next
  case (Suc k)
  assume "FillFolderNode fuel env ctx sched n = Some (Inr t)"
  with Suc show ?thesis
    unfolding Suc FillFolderNode_success by (auto simp: shallow_def)
qed

text \<open>A call that succeeds under one schedule returns the same node under every other.\<close>

lemma FillFolderNode_any_schedule:
  "FillFolderNode fuel env ctx sched n = Some (Inr t) \<Longrightarrow>
   FillFolderNode fuel env ctx sched' n = Some (Inr t)"
proof (induction fuel arbitrary: sched sched' n t)
  case 0
  then show ?case by simp
next
  case (Suc fuel)
  from Suc.prems obtain folders files kids where
    ctx: "ctx = None" and dir: "IsDir n" and
    fo: "RetrieveFoldersOfFolder env None (Id n) = Inr folders" and
    fi: "RetrieveFilesOfFolder env None (Id n) = Inr files" and
    ts: "map (\<lambda>(i, c). FillFolderNode fuel env ctx (\<lambda>p. sched (i # p)) c)
             (enumerate 0 (Children n @ map folder_node folders)) = map (Some \<circ> Inr) kids" and
    t: "t = Node (kids @ map file_node
                    (filter (\<lambda>file. file_IsReadable file \<and> file_IsDownloadable file) files))
               (Name n) (Id n) (IsDir n) (ChDate n) (Size n) (ContentType n)"
    unfolding FillFolderNode_success by blast
  let ?cs = "Children n @ map folder_node folders"
  from ts have len: "length kids = length ?cs"
    and each: "\<forall>j < length ?cs.
       FillFolderNode fuel env ctx (\<lambda>p. sched (j # p)) (?cs ! j) = Some (Inr (kids ! j))"
    unfolding tasks_nth by blast+
  have "\<forall>j < length ?cs.
       FillFolderNode fuel env ctx (\<lambda>p. sched' (j # p)) (?cs ! j) = Some (Inr (kids ! j))"
    using each Suc.IH by blast
  with len have "map (\<lambda>(i, c). FillFolderNode fuel env ctx (\<lambda>p. sched' (i # p)) c)
             (enumerate 0 ?cs) = map (Some \<circ> Inr) kids"
    unfolding tasks_nth by blast
  with ctx dir fo fi t show ?case
    unfolding FillFolderNode_success by blast
qed

text \<open>More fuel changes no result.\<close>

lemma FillFolderNode_Suc_fuel:
  "FillFolderNode fuel env ctx sched n = Some r \<Longrightarrow>
   FillFolderNode (Suc fuel) env ctx sched n = Some r"
proof (induction fuel arbitrary: sched n r)
  case 0
  then show ?case by simp
next
  case (Suc fuel)
  let ?cs = "\<lambda>folders. enumerate 0 (Children n @ map folder_node folders)"
  have same: "map (\<lambda>(i, c). FillFolderNode (Suc fuel) env ctx (\<lambda>p. sched (i # p)) c) (?cs folders)
            = map (\<lambda>(i, c). FillFolderNode fuel env ctx (\<lambda>p. sched (i # p)) c) (?cs folders)"
    if j: "join_tasks (map (\<lambda>(i, c). FillFolderNode fuel env ctx (\<lambda>p. sched (i # p)) c)
                         (?cs folders)) = Some outcomes"
    for folders outcomes
  proof (rule map_cong[OF refl])
    fix x assume x: "x \<in> set (?cs folders)"
    obtain i c where ic: "x = (i, c)" by (cases x)
    from j have "map (\<lambda>(i, c). FillFolderNode fuel env ctx (\<lambda>p. sched (i # p)) c) (?cs folders)
                   = map Some outcomes"
      by (simp only: join_tasks_Some)
    then have "set (map (\<lambda>(i, c). FillFolderNode fuel env ctx (\<lambda>p. sched (i # p)) c)
                      (?cs folders))
                 = set (map Some outcomes)"
      by (rule arg_cong)
    moreover from x ic
    have "FillFolderNode fuel env ctx (\<lambda>p. sched (i # p)) c
            \<in> set (map (\<lambda>(i, c). FillFolderNode fuel env ctx (\<lambda>p. sched (i # p)) c)
                     (?cs folders))"
      by (force simp del: FillFolderNode.simps)
    ultimately
    have "FillFolderNode fuel env ctx (\<lambda>p. sched (i # p)) c \<in> set (map Some outcomes)"
      by (simp only:)
    then obtain r' where "FillFolderNode fuel env ctx (\<lambda>p. sched (i # p)) c = Some r'"
      by (auto simp del: FillFolderNode.simps)
    with Suc.IH ic
    show "(case x of (i, c) \<Rightarrow> FillFolderNode (Suc fuel) env ctx (\<lambda>p. sched (i # p)) c)
         = (case x of (i, c) \<Rightarrow> FillFolderNode fuel env ctx (\<lambda>p. sched (i # p)) c)"
      by (simp del: FillFolderNode.simps)
  qed
  have "FillFolderNode (Suc (Suc fuel)) env ctx sched n = FillFolderNode (Suc fuel) env ctx sched n"
  proof (cases "ctx = None \<and> IsDir n")
    case False
    show ?thesis
    proof (cases ctx)
      case (Some e)
      show ?thesis
        unfolding FillFolderNode.simps(2)[of "Suc fuel"]
          FillFolderNode.simps(2)[of fuel env ctx sched n]
        by (simp only: Some option.case)
    next
      case None
      with False have "\<not> IsDir n" by simp
      then show ?thesis
        unfolding FillFolderNode.simps(2)[of "Suc fuel"]
          FillFolderNode.simps(2)[of fuel env ctx sched n]
        by (simp only: None option.case simp_thms if_True)
    qed
  next
    case True
    then have ctx: "ctx = None" and dir: "IsDir n" by simp_all
    show ?thesis
    proof (cases "RetrieveFoldersOfFolder env None (Id n)")
      case (Inl e)
      then show ?thesis
        unfolding FillFolderNode.simps(2)[of "Suc fuel"]
          FillFolderNode.simps(2)[of fuel env ctx sched n]
        by (simp only: ctx option.case dir simp_thms if_False sum.case)
    next
      case (Inr folders)
      have "join_tasks (map (\<lambda>(i, c). FillFolderNode fuel env None (\<lambda>p. sched (i # p)) c)
                          (?cs folders)) \<noteq> None"
      proof
        assume "join_tasks (map (\<lambda>(i, c). FillFolderNode fuel env None (\<lambda>p. sched (i # p)) c)
                          (?cs folders)) = None"
        then have "FillFolderNode (Suc fuel) env ctx sched n = None"
          unfolding FillFolderNode.simps(2)[of fuel env ctx sched n]
          by (simp only: ctx option.case dir simp_thms if_False Inr sum.case Let_def)
        with Suc.prems show False by (simp del: FillFolderNode.simps)
      qed
      then obtain outcomes where
        j: "join_tasks (map (\<lambda>(i, c). FillFolderNode fuel env ctx (\<lambda>p. sched (i # p)) c)
                          (?cs folders)) = Some outcomes"
        unfolding ctx by blast
      have same0:
        "map (\<lambda>(i, c). FillFolderNode (Suc fuel) env None (\<lambda>p. sched (i # p)) c) (?cs folders)
         = map (\<lambda>(i, c). FillFolderNode fuel env None (\<lambda>p. sched (i # p)) c) (?cs folders)"
        using same[OF j] unfolding ctx .
      show ?thesis
        unfolding FillFolderNode.simps(2)[of "Suc fuel"]
          FillFolderNode.simps(2)[of fuel env ctx sched n]
        by (simp only: ctx option.case dir simp_thms if_False Inr sum.case Let_def same0)
    qed
  qed
  with Suc.prems show ?case by (simp del: FillFolderNode.simps)
qed

lemma FillFolderNode_more_fuel:
  "fuel \<le> fuel' \<Longrightarrow> FillFolderNode fuel env ctx sched n = Some r \<Longrightarrow>
   FillFolderNode fuel' env ctx sched n = Some r"
  by (induction fuel' rule: dec_induct)
    (auto intro: FillFolderNode_Suc_fuel simp del: FillFolderNode.simps)

text \<open>
  Every folder of a tree built from a node without children holds the nodes of its
  subfolders, in the order fetched, and then the leaves of its retained files.
\<close>

lemma built_tree:
  "FillFolderNode fuel env ctx sched n = Some (Inr t) \<Longrightarrow> Children n = [] \<Longrightarrow>
   d \<in> set (subnodes t) \<Longrightarrow> IsDir d \<Longrightarrow>
   \<exists>folders files kids.
     RetrieveFoldersOfFolder env None (Id d) = Inr folders \<and>
     RetrieveFilesOfFolder env None (Id d) = Inr files \<and>
     Children d = kids @ map file_node
                    (filter (\<lambda>file. file_IsReadable file \<and> file_IsDownloadable file) files) \<and>
     map shallow kids = map folder_node folders"
proof (induction fuel arbitrary: sched n t d)
  case 0
  then show ?case by simp
next
  case (Suc fuel)
  from Suc.prems(1) obtain folders files kids where
    ctx: "ctx = None" and dir: "IsDir n" and
    fo: "RetrieveFoldersOfFolder env None (Id n) = Inr folders" and
    fi: "RetrieveFilesOfFolder env None (Id n) = Inr files" and
    ts: "map (\<lambda>(i, c). FillFolderNode fuel env ctx (\<lambda>p. sched (i # p)) c)
             (enumerate 0 (Children n @ map folder_node folders)) = map (Some \<circ> Inr) kids" and
    t: "t = Node (kids @ map file_node
                    (filter (\<lambda>file. file_IsReadable file \<and> file_IsDownloadable file) files))
               (Name n) (Id n) (IsDir n) (ChDate n) (Size n) (ContentType n)"
    unfolding FillFolderNode_success by blast
  from ts Suc.prems(2) have len: "length kids = length folders"
    and each: "\<forall>j < length folders.
       FillFolderNode fuel env ctx (\<lambda>p. sched (j # p)) (folder_node (folders ! j))
         = Some (Inr (kids ! j))"
    unfolding tasks_nth by auto
  have sh: "map shallow kids = map folder_node folders"
  proof (rule nth_equalityI)
    show "length (map shallow kids) = length (map folder_node folders)" using len by simp
  next
    fix j assume "j < length (map shallow kids)"
    then have j: "j < length folders" using len by simp
    with each FillFolderNode_shallow
    have "shallow (kids ! j) = shallow (folder_node (folders ! j))"
      by blast
    with j len show "map shallow kids ! j = map folder_node folders ! j" by simp
  qed
  from Suc.prems(3) t consider
      (root) "d = t"
    | (kid) k where "k \<in> set kids" "d \<in> set (subnodes k)"
    | (leaf) fl where "d \<in> set (subnodes (file_node fl))"
    by auto
  then show ?case
  proof cases
    case root
    with t fo fi sh show ?thesis by auto
  next
    case kid
    then obtain j where j: "j < length kids" "k = kids ! j" by (auto simp: in_set_conv_nth)
    with each len
    have "FillFolderNode fuel env ctx (\<lambda>p. sched (j # p)) (folder_node (folders ! j))
            = Some (Inr k)"
      by simp
    from Suc.IH[OF this _ kid(2) Suc.prems(4)] show ?thesis by simp
  next
    case leaf
    then have "d = file_node fl" by (simp add: file_node_def)
    with Suc.prems(4) show ?thesis by simp
  qed
qed

lemma files_of_built:
  assumes "Children d = kids @ map file_node retained"
    and "map shallow kids = map folder_node folders"
  shows "filter (\<lambda>c. \<not> IsDir c) (Children d) = map file_node retained"
proof -
  have "\<forall>k \<in> set kids. IsDir k"
  proof
    fix k assume "k \<in> set kids"
    then have "shallow k \<in> set (map folder_node folders)"
      using assms(2) by (metis image_eqI list.set_map)
    then obtain fd where "shallow k = folder_node fd" by auto
    then have "IsDir (shallow k)" by simp
    then show "IsDir k" by simp
  qed
  then have "filter (\<lambda>c. \<not> IsDir c) kids = []" by (simp add: filter_empty_conv)
  moreover have "filter (\<lambda>c. \<not> IsDir c) (map file_node retained) = map file_node retained"
    by (simp add: filter_map comp_def)
  ultimately show ?thesis using assms(1) by simp
qed

lemma GetCourseFileTree_Inr:
  "(GetCourseFileTree fuel env ctx sched rootFolderID = Some (Inr tree)) =
     (ctx = None \<and>
      FillFolderNode fuel env ctx sched (Node [] [] rootFolderID True 0 0 []) = Some (Inr tree))"
  by (auto simp: GetCourseFileTree_def split: option.splits)

lemma is_Object_entry_of: "is_Object (entry_of dir c) = (\<not> IsDir c)"
  by (simp add: entry_of_def)

text \<open>The small course is built, under every schedule, within two levels of calls.\<close>

lemma example_build:
  "GetCourseFileTree (Suc (Suc 0)) example_remote None sched ''top'' = Some (Inr example_tree)"
  by (simp add: GetCourseFileTree_def example_remote_def example_tree_def
        RetrieveFoldersOfFolder_def RetrieveFilesOfFolder_def folder_node_def file_node_def
        enumerate_eq_zip barrier_success)

text \<open>
  C8. After a successful build the tree is the same under every order of completion of
  the tasks (and with any larger bound on the depth of calls), and the children of every
  folder node in it are the nodes of the subfolders fetched for it, in the order of the
  response, followed by the leaves of the files fetched for it that are readable and
  downloadable, in the order of the response.
\<close>

theorem built_children_in_fetch_order:
  assumes "GetCourseFileTree fuel env ctx sched rootFolderID = Some (Inr tree)"
  shows "(\<forall>fuel' sched'. fuel \<le> fuel' \<longrightarrow>
            GetCourseFileTree fuel' env ctx sched' rootFolderID = Some (Inr tree)) \<and>
         (\<forall>d \<in> set (subnodes tree). IsDir d \<longrightarrow>
            (\<exists>folders files.
               RetrieveFoldersOfFolder env ctx (Id d) = Inr folders \<and>
               RetrieveFilesOfFolder env ctx (Id d) = Inr files \<and>
               map shallow (Children d) =
                 map folder_node folders @
                 map file_node
                   (filter (\<lambda>file. file_IsReadable file \<and> file_IsDownloadable file) files)))"
proof -
  from assms have ctx: "ctx = None"
    and fill: "FillFolderNode fuel env ctx sched (Node [] [] rootFolderID True 0 0 [])
                 = Some (Inr tree)"
    unfolding GetCourseFileTree_Inr by blast+
  have one: "GetCourseFileTree fuel' env ctx sched' rootFolderID = Some (Inr tree)"
    if le: "fuel \<le> fuel'" for fuel' sched'
  proof -
    from fill
    have "FillFolderNode fuel env ctx sched' (Node [] [] rootFolderID True 0 0 [])
            = Some (Inr tree)"
      by (rule FillFolderNode_any_schedule)
    with le
    have "FillFolderNode fuel' env ctx sched' (Node [] [] rootFolderID True 0 0 [])
            = Some (Inr tree)"
      by (rule FillFolderNode_more_fuel)
    with ctx show ?thesis by (simp add: GetCourseFileTree_Inr)
  qed
  have two: "\<exists>folders files.
               RetrieveFoldersOfFolder env ctx (Id d) = Inr folders \<and>
               RetrieveFilesOfFolder env ctx (Id d) = Inr files \<and>
               map shallow (Children d) =
                 map folder_node folders @
                 map file_node
                   (filter (\<lambda>file. file_IsReadable file \<and> file_IsDownloadable file) files)"
    if d: "d \<in> set (subnodes tree)" "IsDir d" for d
  proof -
    from built_tree[OF fill _ d] obtain folders files kids where
      "RetrieveFoldersOfFolder env None (Id d) = Inr folders"
      "RetrieveFilesOfFolder env None (Id d) = Inr files"
      "Children d = kids @ map file_node
                      (filter (\<lambda>file. file_IsReadable file \<and> file_IsDownloadable file) files)"
      "map shallow kids = map folder_node folders"
      by auto
    with ctx show ?thesis by (simp add: comp_def)
  qed
  from one two show ?thesis by blast
qed

text \<open>
  The small course, built with the tasks completing in launch order and, with more
  fuel, with \<open>slides\<close> completing before \<open>docs\<close>: the root holds \<open>docs\<close>, \<open>slides\<close>,
  \<open>notes.txt\<close> both times.
\<close>

theorem built_children_in_fetch_order_witness:
  "GetCourseFileTree (Suc (Suc 0)) example_remote None (\<lambda>p. []) ''top''
     = Some (Inr example_tree) \<and>
   GetCourseFileTree (Suc (Suc (Suc 0))) example_remote None (\<lambda>p. [1]) ''top''
     = Some (Inr example_tree) \<and>
   (\<exists>folders files.
      RetrieveFoldersOfFolder example_remote None (Id example_tree) = Inr folders \<and>
      RetrieveFilesOfFolder example_remote None (Id example_tree) = Inr files \<and>
      map shallow (Children example_tree) =
        map folder_node folders @
        map file_node
          (filter (\<lambda>file. file_IsReadable file \<and> file_IsDownloadable file) files)) \<and>
   map Name (Children example_tree) = [''docs'', ''slides'', ''notes.txt'']"
proof -
  have b: "GetCourseFileTree (Suc (Suc 0)) example_remote None (\<lambda>p. []) ''top''
             = Some (Inr example_tree)"
    by (rule example_build)
  have r: "example_tree \<in> set (subnodes example_tree)" "IsDir example_tree"
    by (simp_all add: example_tree_def)
  have n: "map Name (Children example_tree) = [''docs'', ''slides'', ''notes.txt'']"
    by (simp add: example_tree_def)
  have le: "Suc (Suc 0) \<le> Suc (Suc (Suc 0))" by simp
  from built_children_in_fetch_order[OF b] le r b n show ?thesis by blast
qed

text \<open>
  C5. After a successful build, the children of every folder node that are files are
  exactly the leaves of the file records fetched for that folder whose readable and
  downloadable flags are both set: a record with either flag unset gives no child. The
  file entries of every listing of the snapshot, or of a snapshot rooted at one of its
  nodes, are exactly the entries of such records of the listed folder.
\<close>

theorem unreadable_files_excluded:
  assumes "GetCourseFileTree fuel env ctx sched rootFolderID = Some (Inr tree)"
  shows "(\<forall>d \<in> set (subnodes tree). IsDir d \<longrightarrow>
            (\<exists>files.
               RetrieveFilesOfFolder env ctx (Id d) = Inr files \<and>
               filter (\<lambda>c. \<not> IsDir c) (Children d) =
                 map file_node
                   (filter (\<lambda>file. file_IsReadable file \<and> file_IsDownloadable file) files))) \<and>
         (\<forall>f r dir entries.
            r \<in> set (subnodes tree) \<and> rootNode f = Some r \<and>
            Fs_List f None dir = Returns (Inr entries) \<longrightarrow>
            (\<exists>d files.
               d \<in> set (subnodes tree) \<and> IsDir d \<and>
               GetNodeAtPath (Some r) (strings_Split dir CHR ''/'') = Returns (Some d) \<and>
               RetrieveFilesOfFolder env ctx (Id d) = Inr files \<and>
               mset (filter is_Object entries) =
                 mset (map (\<lambda>file. entry_of dir (file_node file))
                        (filter (\<lambda>file. file_IsReadable file \<and> file_IsDownloadable file)
                           files))))"
proof -
  from assms have ctx: "ctx = None"
    and fill: "FillFolderNode fuel env ctx sched (Node [] [] rootFolderID True 0 0 [])
                 = Some (Inr tree)"
    unfolding GetCourseFileTree_Inr by blast+
  have one: "\<exists>files.
               RetrieveFilesOfFolder env ctx (Id d) = Inr files \<and>
               filter (\<lambda>c. \<not> IsDir c) (Children d) =
                 map file_node
                   (filter (\<lambda>file. file_IsReadable file \<and> file_IsDownloadable file) files)"
    if d: "d \<in> set (subnodes tree)" "IsDir d" for d
  proof -
    from built_tree[OF fill _ d] obtain folders files kids where
      fi: "RetrieveFilesOfFolder env None (Id d) = Inr files" and
      ch: "Children d = kids @ map file_node
             (filter (\<lambda>file. file_IsReadable file \<and> file_IsDownloadable file) files)"
        "map shallow kids = map folder_node folders"
      by auto
    from files_of_built[OF ch] fi ctx show ?thesis by simp
  qed
  have two: "\<exists>d files.
               d \<in> set (subnodes tree) \<and> IsDir d \<and>
               GetNodeAtPath (Some r) (strings_Split dir CHR ''/'') = Returns (Some d) \<and>
               RetrieveFilesOfFolder env ctx (Id d) = Inr files \<and>
               mset (filter is_Object entries) =
                 mset (map (\<lambda>file. entry_of dir (file_node file))
                        (filter (\<lambda>file. file_IsReadable file \<and> file_IsDownloadable file)
                           files))"
    if r: "r \<in> set (subnodes tree)" "rootNode f = Some r"
      and l: "Fs_List f None dir = Returns (Inr entries)" for f r dir entries
  proof -
    from l r(2) obtain d where
      g: "GetNodeAtPath (Some r) (strings_Split dir CHR ''/'') = Returns (Some d)" and
      dir: "IsDir d" and
      e: "entries = sort_Slice Less (map (entry_of dir) (Children d))"
      by (auto simp: Fs_List_Inr)
    from GetNodeAtPath_subnode[OF g] r(1) have d: "d \<in> set (subnodes tree)"
      by (rule subnodes_trans[rotated])
    from one[OF d dir] obtain files where
      fi: "RetrieveFilesOfFolder env ctx (Id d) = Inr files" and
      ch: "filter (\<lambda>c. \<not> IsDir c) (Children d) =
             map file_node
               (filter (\<lambda>file. file_IsReadable file \<and> file_IsDownloadable file) files)"
      by blast
    have fm: "filter is_Object (map (entry_of dir) (Children d)) =
                map (entry_of dir) (filter (\<lambda>c. \<not> IsDir c) (Children d))"
      by (simp add: filter_map comp_def is_Object_entry_of)
    have "mset (filter is_Object entries) = filter_mset is_Object (mset entries)"
      by simp
    also have "\<dots> = filter_mset is_Object (mset (map (entry_of dir) (Children d)))"
      by (simp only: e mset_sort_Slice)
    also have "\<dots> = mset (filter is_Object (map (entry_of dir) (Children d)))"
      by (simp only: mset_filter)
    also have "\<dots> = mset (map (entry_of dir) (filter (\<lambda>c. \<not> IsDir c) (Children d)))"
      by (simp only: fm)
    also have "\<dots> = mset (map (\<lambda>file. entry_of dir (file_node file))
                        (filter (\<lambda>file. file_IsReadable file \<and> file_IsDownloadable file)
                           files))"
      by (simp add: ch comp_def)
    finally show ?thesis using d dir g fi by blast
  qed
  from one two show ?thesis by blast
qed

text \<open>
  In the small course \<open>secret.txt\<close> is not readable and \<open>draft.pdf\<close> is not downloadable:
  the only file under the root is \<open>notes.txt\<close>, and the listing of \<open>docs\<close> holds
  \<open>a.pdf\<close> alone.
\<close>

theorem unreadable_files_excluded_witness:
  "GetCourseFileTree (Suc (Suc 0)) example_remote None (\<lambda>p. []) ''top''
     = Some (Inr example_tree) \<and>
   (\<exists>files.
      RetrieveFilesOfFolder example_remote None (Id example_tree) = Inr files \<and>
      filter (\<lambda>c. \<not> IsDir c) (Children example_tree) =
        map file_node
          (filter (\<lambda>file. file_IsReadable file \<and> file_IsDownloadable file) files)) \<and>
   filter (\<lambda>c. \<not> IsDir c) (Children example_tree)
     = [Node [] ''notes.txt'' ''f2'' False 3 5 ''text/plain''] \<and>
   Fs_List example_fs None ''docs''
     = Returns (Inr [Object ''docs/a.pdf'' ''f1'' 10 False ''application/pdf'' 2]) \<and>
   (\<exists>d files.
      d \<in> set (subnodes example_tree) \<and> IsDir d \<and>
      GetNodeAtPath (Some example_tree) (strings_Split ''docs'' CHR ''/'') = Returns (Some d) \<and>
      RetrieveFilesOfFolder example_remote None (Id d) = Inr files \<and>
      mset (filter is_Object [Object ''docs/a.pdf'' ''f1'' 10 False ''application/pdf'' 2]) =
        mset (map (\<lambda>file. entry_of ''docs'' (file_node file))
               (filter (\<lambda>file. file_IsReadable file \<and> file_IsDownloadable file) files)))"
proof -
  have b: "GetCourseFileTree (Suc (Suc 0)) example_remote None (\<lambda>p. []) ''top''
             = Some (Inr example_tree)"
    by (rule example_build)
  have r: "example_tree \<in> set (subnodes example_tree)" "rootNode example_fs = Some example_tree"
    by (simp_all add: example_tree_def example_fs_def)
  have d: "IsDir example_tree"
    by (simp add: example_tree_def)
  have c: "filter (\<lambda>c. \<not> IsDir c) (Children example_tree)
             = [Node [] ''notes.txt'' ''f2'' False 3 5 ''text/plain'']"
    by (simp add: example_tree_def)
  have l: "Fs_List example_fs None ''docs''
             = Returns (Inr [Object ''docs/a.pdf'' ''f1'' 10 False ''application/pdf'' 2])"
    by (simp add: Fs_List_def example_fs_def example_tree_def sort_Slice_def entry_of_def
          filepath_Join_def path_Clean_def)
  note t = unreadable_files_excluded[OF b]
  from t r(1) d
  have one: "\<exists>files.
      RetrieveFilesOfFolder example_remote None (Id example_tree) = Inr files \<and>
      filter (\<lambda>c. \<not> IsDir c) (Children example_tree) =
        map file_node
          (filter (\<lambda>file. file_IsReadable file \<and> file_IsDownloadable file) files)"
    by blast
  from t r l
  have two: "\<exists>d files.
      d \<in> set (subnodes example_tree) \<and> IsDir d \<and>
      GetNodeAtPath (Some example_tree) (strings_Split ''docs'' CHR ''/'') = Returns (Some d) \<and>
      RetrieveFilesOfFolder example_remote None (Id d) = Inr files \<and>
      mset (filter is_Object [Object ''docs/a.pdf'' ''f1'' 10 False ''application/pdf'' 2]) =
        mset (map (\<lambda>file. entry_of ''docs'' (file_node file))
               (filter (\<lambda>file. file_IsReadable file \<and> file_IsDownloadable file) files))"
    by blast
  from b one c l two show ?thesis by blast
qed

section \<open>Properties of the initialisation\<close>

text \<open>
  C10. With a root string that is not empty, \<^verbatim>\<open>NewFs\<close> stores what the resolver returns
  for the parent directory of the root and does not look at it: when the steps before
  succeed, the \<^verbatim>\<open>Fs\<close> returned has that result as its root node, and no error is
  returned when the result is nil, which it is when the parent path is not in the tree.
\<close>

theorem NewFs_stores_resolved_root:
  assumes "m = Inr opt_arg"
    and "CourseID opt_arg \<noteq> []"
    and "url_Parse env (BaseURL opt_arg) = None"
    and "obscure_Reveal env (Password opt_arg) = Inr password"
    and "TestConnection env
           \<lparr>name = name_arg, opt = opt_arg, root = root_arg, rootNode = None\<rparr> None = None"
    and "RetrieveRootFolderID env
           \<lparr>name = name_arg, opt = opt_arg, root = root_arg, rootNode = None\<rparr> None = Inr rootID"
    and "GetCourseFileTree fuel env None sched rootID = Some (Inr tree)"
    and "root_arg \<noteq> []"
    and "GetNodeAtPath (Some tree) (splitPath (filepath_Dir root_arg)) = Returns node"
  shows "NewFs fuel env sched None name_arg root_arg m =
           Some (Returns (Inr \<lparr>name = name_arg, opt = opt_arg, root = root_arg,
                               rootNode = node\<rparr>))"
  using assms by (simp add: NewFs_def)

text \<open>
  The small course opened at the root \<open>missing/x\<close>: the parent \<open>missing\<close> is no child of
  the root folder, and the \<^verbatim>\<open>Fs\<close> returned has a nil root node.
\<close>

theorem NewFs_stores_resolved_root_witness:
  "''missing/x'' \<noteq> [] \<and>
   GetCourseFileTree (Suc (Suc 0)) example_remote None (\<lambda>p. []) ''top''
     = Some (Inr example_tree) \<and>
   GetNodeAtPath (Some example_tree) (splitPath (filepath_Dir ''missing/x'')) = Returns None \<and>
   NewFs (Suc (Suc 0)) example_remote (\<lambda>p. []) None ''studip'' ''missing/x''
       (Inr example_options)
     = Some (Returns (Inr \<lparr>name = ''studip'', opt = example_options, root = ''missing/x'',
                           rootNode = None\<rparr>))"
proof -
  have c: "CourseID example_options \<noteq> []"
    by (simp add: example_options_def)
  have u: "url_Parse example_remote (BaseURL example_options) = None"
    by (simp add: example_remote_def)
  have p: "obscure_Reveal example_remote (Password example_options) = Inr ''p''"
    by (simp add: example_remote_def example_options_def)
  have t: "TestConnection example_remote
             \<lparr>name = ''studip'', opt = example_options, root = ''missing/x'', rootNode = None\<rparr>
             None = None"
    by (simp add: TestConnection_def example_remote_def example_options_def)
  have i: "RetrieveRootFolderID example_remote
             \<lparr>name = ''studip'', opt = example_options, root = ''missing/x'', rootNode = None\<rparr>
             None = Inr ''top''"
    by (simp add: RetrieveRootFolderID_def example_remote_def example_options_def)
  have b: "GetCourseFileTree (Suc (Suc 0)) example_remote None (\<lambda>p. []) ''top''
             = Some (Inr example_tree)"
    by (rule example_build)
  have n: "''missing/x'' \<noteq> []" by simp
  have g: "GetNodeAtPath (Some example_tree) (splitPath (filepath_Dir ''missing/x''))
             = Returns None"
    by (simp add: splitPath_def filepath_Dir_def path_Clean_def example_tree_def)
  from NewFs_stores_resolved_root[OF refl c u p t i b n g] n b g show ?thesis by blast
qed

end
